theory Spec2Isabelle
  imports Main
begin

section \<open>Data model\<close>

text \<open>
  The endpoints of \<^verbatim>\<open>app/api/v1/endpoints/task.py\<close> work on three tables (plans, tasks,
  comments) through the CRUD objects \<^verbatim>\<open>plan_crud\<close>, \<^verbatim>\<open>task_crud\<close> and \<^verbatim>\<open>comment_crud\<close>, and
  on the resolved \<^verbatim>\<open>User\<close> of the request. Primary keys are natural numbers and a date is
  its day number (\<^verbatim>\<open>date.toordinal()\<close>), so that dates compare as the integers do.
\<close>

type_synonym PK_TYPE = nat
type_synonym USER_PK_TYPE = nat
type_synonym date = int

datatype TaskStatus = TASK_CREATED | TASK_IN_PROGRESS | TASK_DONE

datatype PlanStatus = PLAN_CREATED | PLAN_IN_PROGRESS | PLAN_DONE

datatype CommentType = TEXT

datatype Role = SUPERVISOR | SUBORDINATE

record plan =
  plan_id :: PK_TYPE
  plan_owner :: USER_PK_TYPE
  plan_status :: PlanStatus
  plan_expires_at :: "date option"

record task =
  task_id :: PK_TYPE
  task_plan_id :: PK_TYPE
  task_assignee :: USER_PK_TYPE
  task_status :: TaskStatus
  task_expires_at :: "date option"

text \<open>
  The content of the one comment the endpoints write is the message
  \<^verbatim>\<open>"Zadacha sozdana {}".format(date.today().strftime("%d.%m.%Y"))\<close> (in Russian in the
  source); the model keeps the date the message is formatted from.
\<close>

datatype content = Task_created_on date

record comment =
  comment_task_id :: PK_TYPE
  comment_author_id :: USER_PK_TYPE
  comment_type :: CommentType
  comment_content :: content

record User =
  user_id :: USER_PK_TYPE
  user_role :: Role
  supervisor_id :: "USER_PK_TYPE option"

text \<open>The request bodies: the fields of \<^verbatim>\<open>TaskCreate\<close> and \<^verbatim>\<open>TaskUpdate\<close> the endpoints read.
  A field of \<^verbatim>\<open>TaskUpdate\<close> that the request leaves unset is \<open>None\<close>.\<close>

record TaskCreate =
  create_assignee :: USER_PK_TYPE
  create_expires_at :: "date option"

record TaskUpdate =
  patch_status :: "TaskStatus option"
  patch_expires_at :: "date option"

text \<open>The database behind the session.\<close>

record db =
  plans :: "plan list"
  tasks :: "task list"
  comments :: "comment list"

text \<open>What is outside the database: the clock and the supervisory chain of the identity
  service (\<open>supervises env u v\<close>: user \<open>u\<close> is in the supervisory chain of user \<open>v\<close>).\<close>

record env =
  today :: date
  supervises :: "USER_PK_TYPE \<Rightarrow> USER_PK_TYPE \<Rightarrow> bool"

datatype error = NotFound | Forbidden | InvalidDate | AttributeError | IndexError

section \<open>Coroutines\<close>

text \<open>
  The CRUD methods are \<^verbatim>\<open>async def\<close> (as \<^verbatim>\<open>CRUDNotification.make_read\<close> is, and as the
  \<^verbatim>\<open>await\<close>s of \<^verbatim>\<open>get_task\<close> require): calling one builds a coroutine object, and only
  \<^verbatim>\<open>await\<close> runs it. A coroutine is a function of the database; \<open>await\<close> applies it,
  and a coroutine that is built and dropped leaves the database as it was.
\<close>

type_synonym 'a coroutine = "db \<Rightarrow> 'a \<times> db"

definition await :: "'a coroutine \<Rightarrow> db \<Rightarrow> 'a \<times> db" where
  "await c s = c s"

definition not_awaited :: "'a coroutine \<Rightarrow> db \<Rightarrow> db" where
  "not_awaited c s = s"

section \<open>The stores\<close>

text \<open>Python's truth value of \<^verbatim>\<open>user.supervisor_id\<close>: \<^verbatim>\<open>None\<close> and the key 0 are false.\<close>

definition truthy :: "nat option \<Rightarrow> bool" where
  "truthy v = (case v of None \<Rightarrow> False | Some n \<Rightarrow> n \<noteq> 0)"

text \<open>The key the store gives a new task: one above every key in the table.\<close>

definition fresh_id :: "task list \<Rightarrow> PK_TYPE" where
  "fresh_id ts = Suc (fold max (map task_id ts) 0)"

definition apply_patch :: "TaskUpdate \<Rightarrow> task \<Rightarrow> task" where
  "apply_patch p t =
     t\<lparr>task_status := (case patch_status p of None \<Rightarrow> task_status t | Some st \<Rightarrow> st),
       task_expires_at := (case patch_expires_at p of None \<Rightarrow> task_expires_at t | Some d \<Rightarrow> Some d)\<rparr>"

definition task_crud_get :: "db \<Rightarrow> PK_TYPE \<Rightarrow> task option" where
  \<comment> \<open>Modelled from the spec: \<^verbatim>\<open>CRUDBase.get\<close> (db/crud/base.py is not among the sources),
      \<^verbatim>\<open>get(filter) -> entity | NotFound\<close>, here with the filter \<^verbatim>\<open>{"id": task_id}\<close>.\<close>
  "task_crud_get s tid = find (\<lambda>t. task_id t = tid) (tasks s)"

definition plan_crud_get :: "db \<Rightarrow> PK_TYPE \<Rightarrow> plan option" where
  \<comment> \<open>Modelled from the spec: \<^verbatim>\<open>CRUDBase.get\<close> on plans, with the filter \<^verbatim>\<open>{"id": plan_id}\<close>.\<close>
  "plan_crud_get s pid = find (\<lambda>p. plan_id p = pid) (plans s)"

definition task_crud_get_all :: "PK_TYPE \<Rightarrow> task list coroutine" where
  \<comment> \<open>Modelled from the spec: \<^verbatim>\<open>CRUDBase.get_all\<close>, \<^verbatim>\<open>getAll(filter) -> sequence<entity>\<close>,
      with the filter \<^verbatim>\<open>{"plan_id": plan_id}\<close>; it reads only.\<close>
  "task_crud_get_all pid s = (filter (\<lambda>t. task_plan_id t = pid) (tasks s), s)"

definition task_crud_create :: "TaskCreate \<Rightarrow> PK_TYPE \<Rightarrow> task coroutine" where
  \<comment> \<open>Modelled from the spec: \<^verbatim>\<open>CRUDBase.create\<close>, \<^verbatim>\<open>create(fields) -> entity\<close>; the new Task
      starts \<^verbatim>\<open>CREATED\<close>.\<close>
  "task_crud_create vals pid s =
     (let t = \<lparr>task_id = fresh_id (tasks s), task_plan_id = pid,
               task_assignee = create_assignee vals, task_status = TASK_CREATED,
               task_expires_at = create_expires_at vals\<rparr>
      in (t, s\<lparr>tasks := tasks s @ [t]\<rparr>))"

definition task_crud_update :: "PK_TYPE \<Rightarrow> TaskUpdate \<Rightarrow> task list coroutine" where
  \<comment> \<open>Modelled from the spec: \<^verbatim>\<open>CRUDBase.update\<close>, \<^verbatim>\<open>update(filter, fields) -> sequence<entity>\<close>
      (may affect multiple rows), with the filter \<^verbatim>\<open>{"id": task_id}\<close>: every row the filter
      matches takes the fields, and the updated rows are returned.\<close>
  "task_crud_update tid vals s =
     (let ts = map (\<lambda>t. if task_id t = tid then apply_patch vals t else t) (tasks s)
      in (filter (\<lambda>t. task_id t = tid) ts, s\<lparr>tasks := ts\<rparr>))"

definition plan_crud_update :: "PK_TYPE \<Rightarrow> PlanStatus \<Rightarrow> plan list coroutine" where
  \<comment> \<open>Modelled from the spec: \<^verbatim>\<open>CRUDBase.update\<close> on plans, with the filter
      \<^verbatim>\<open>{"id": plan_id}\<close> and the fields \<^verbatim>\<open>{"status": ...}\<close>.\<close>
  "plan_crud_update pid st s =
     (let ps = map (\<lambda>p. if plan_id p = pid then p\<lparr>plan_status := st\<rparr> else p) (plans s)
      in (filter (\<lambda>p. plan_id p = pid) ps, s\<lparr>plans := ps\<rparr>))"

definition task_crud_delete :: "PK_TYPE \<Rightarrow> unit coroutine" where
  \<comment> \<open>Modelled from the spec: \<^verbatim>\<open>CRUDBase.delete\<close>, \<^verbatim>\<open>delete(filter) -> ()\<close>, with the filter
      \<^verbatim>\<open>{"id": task_id}\<close>. A Task owns its Comments: the store deletes them with it
      (the cascade delete the spec expects at the store layer).\<close>
  "task_crud_delete tid s =
     ((), s\<lparr>tasks := filter (\<lambda>t. task_id t \<noteq> tid) (tasks s),
            comments := filter (\<lambda>c. comment_task_id c \<noteq> tid) (comments s)\<rparr>)"

definition comment_crud_create :: "comment \<Rightarrow> comment coroutine" where
  \<comment> \<open>Modelled from the spec: \<^verbatim>\<open>CRUDBase.create\<close> on comments.\<close>
  "comment_crud_create c s = (c, s\<lparr>comments := comments s @ [c]\<rparr>)"

section \<open>The validators\<close>

definition may_act :: "env \<Rightarrow> USER_PK_TYPE \<Rightarrow> USER_PK_TYPE \<Rightarrow> bool" where
  \<comment> \<open>Modelled from the spec: the requesting user is the owning subject or in its
      supervisory chain.\<close>
  "may_act e uid subject = (uid = subject \<or> supervises e uid subject)"

definition check_task_and_user_access :: "env \<Rightarrow> PK_TYPE \<Rightarrow> USER_PK_TYPE \<Rightarrow> db \<Rightarrow> error + task" where
  \<comment> \<open>Modelled from the spec: \<^verbatim>\<open>validators.check_task_and_user_access\<close> (api/v1/validators.py
      is not among the sources), \<^verbatim>\<open>checkTaskAccess(taskId, userId) -> Task | Fails(NotFound |
      Forbidden)\<close>; it reads only.\<close>
  "check_task_and_user_access e tid uid s =
     (case task_crud_get s tid of
        None \<Rightarrow> Inl NotFound
      | Some t \<Rightarrow> if may_act e uid (task_assignee t) then Inr t else Inl Forbidden)"

definition check_plan_and_user_access :: "env \<Rightarrow> PK_TYPE \<Rightarrow> USER_PK_TYPE \<Rightarrow> db \<Rightarrow> error + plan" where
  \<comment> \<open>Modelled from the spec: \<^verbatim>\<open>validators.check_plan_and_user_access\<close>,
      \<^verbatim>\<open>checkPlanAccess(planId, userId) -> Plan | Fails(NotFound | Forbidden)\<close>; it reads only.\<close>
  "check_plan_and_user_access e pid uid s =
     (case plan_crud_get s pid of
        None \<Rightarrow> Inl NotFound
      | Some p \<Rightarrow> if may_act e uid (plan_owner p) then Inr p else Inl Forbidden)"

definition check_role :: "User \<Rightarrow> error + unit" where
  \<comment> \<open>Modelled from the spec: \<^verbatim>\<open>validators.check_role\<close>, \<^verbatim>\<open>checkRole(user) -> () |
      Fails(Forbidden)\<close>: fails unless the user's role permits mutation.\<close>
  "check_role u = (if user_role u = SUPERVISOR then Inr () else Inl Forbidden)"

definition check_plan_tasks_expired_date :: "env \<Rightarrow> db \<Rightarrow> plan \<Rightarrow> date \<Rightarrow> error + unit" where
  \<comment> \<open>Modelled from the spec: \<^verbatim>\<open>validators.check_plan_tasks_expired_date\<close>,
      \<^verbatim>\<open>checkPlanTasksExpiry(plan, candidateExpiry)\<close>: fails if the candidate is not strictly
      after the current date, or (when the plan's expiry is set) exceeds the plan's expiry.\<close>
  "check_plan_tasks_expired_date e s p d =
     (if \<not> today e < d then Inl InvalidDate
      else case plan_expires_at p of
             None \<Rightarrow> Inr ()
           | Some pe \<Rightarrow> if pe < d then Inl InvalidDate else Inr ())"

definition check_new_date_gt_current :: "task \<Rightarrow> date \<Rightarrow> error + unit" where
  \<comment> \<open>Modelled from the spec: \<^verbatim>\<open>validators.check_new_date_gt_current\<close>,
      \<^verbatim>\<open>checkNewDateAfterCurrent(task, candidateExpiry)\<close>: fails if the candidate is not
      strictly after the task's expiry. A task with no expiry has no deadline to move
      backward, and passes.\<close>
  "check_new_date_gt_current t d =
     (case task_expires_at t of
        None \<Rightarrow> Inr ()
      | Some cur \<Rightarrow> if cur < d then Inr () else Inl InvalidDate)"

section \<open>The endpoints\<close>

text \<open>
  The values an endpoint binds to a variable: a row (an ORM entity), the list of rows a
  store call returns, and a function object. Reading \<^verbatim>\<open>.plan_id\<close> is defined on a row;
  on a list, as on a function, Python raises \<^verbatim>\<open>AttributeError\<close>.
\<close>

datatype pyobj = Row task | Rows "task list" | Function

definition getattr_plan_id :: "pyobj \<Rightarrow> error + PK_TYPE" where
  "getattr_plan_id v =
     (case v of
        Row t \<Rightarrow> Inr (task_plan_id t)
      | Rows ts \<Rightarrow> Inl AttributeError
      | Function \<Rightarrow> Inl AttributeError)"

text \<open>
  \<^verbatim>\<open>get_task\<close>. The source binds \<^verbatim>\<open>task\<close> to what \<^verbatim>\<open>task_crud.update\<close> returns, the sequence of
  the updated rows, and reads \<^verbatim>\<open>task.plan_id\<close> on that value (\<^verbatim>\<open>update_task\<close> takes
  \<^verbatim>\<open>new_task[0]\<close> of it first; \<^verbatim>\<open>get_task\<close> does not).
\<close>

definition get_task :: "env \<Rightarrow> PK_TYPE \<Rightarrow> User \<Rightarrow> db \<Rightarrow> (error + pyobj) \<times> db" where
  "get_task e tid user s =
     (case check_task_and_user_access e tid (user_id user) s of
        Inl err \<Rightarrow> (Inl err, s)
      | Inr task \<Rightarrow>
          if task_status task = TASK_CREATED \<and> truthy (supervisor_id user) then
            (case await (task_crud_update tid
                           \<lparr>patch_status = Some TASK_IN_PROGRESS, patch_expires_at = None\<rparr>) s of
               (rows, s1) \<Rightarrow>
                 (case getattr_plan_id (Rows rows) of
                    Inl err \<Rightarrow> (Inl err, s1)
                  | Inr pid \<Rightarrow>
                      (case await (plan_crud_update pid PLAN_IN_PROGRESS) s1 of
                         (_, s2) \<Rightarrow> (Inr (Rows rows), s2))))
          else (Inr (Row task), s))"

definition get_tasks :: "env \<Rightarrow> PK_TYPE \<Rightarrow> User \<Rightarrow> db \<Rightarrow> (error + task list) \<times> db" where
  "get_tasks e pid user s =
     (case check_plan_and_user_access e pid (user_id user) s of
        Inl err \<Rightarrow> (Inl err, s)
      | Inr _ \<Rightarrow> (case await (task_crud_get_all pid) s of (ts, s1) \<Rightarrow> (Inr ts, s1)))"

text \<open>
  \<^verbatim>\<open>create_task\<close>. The last store call, \<^verbatim>\<open>plan_crud.update(...)\<close>, is written without
  \<^verbatim>\<open>await\<close>.
\<close>

definition create_task :: "env \<Rightarrow> PK_TYPE \<Rightarrow> TaskCreate \<Rightarrow> User \<Rightarrow> db \<Rightarrow> (error + task) \<times> db" where
  "create_task e pid task_create user s =
     (case check_plan_and_user_access e pid (user_id user) s of
        Inl err \<Rightarrow> (Inl err, s)
      | Inr plan \<Rightarrow>
          (case check_role user of
             Inl err \<Rightarrow> (Inl err, s)
           | Inr _ \<Rightarrow>
               (case (case create_expires_at task_create of
                        None \<Rightarrow> Inr ()
                      | Some d \<Rightarrow> check_plan_tasks_expired_date e s plan d) of
                  Inl err \<Rightarrow> (Inl err, s)
                | Inr _ \<Rightarrow>
                    (case await (task_crud_create task_create pid) s of
                       (task, s1) \<Rightarrow>
                         (case await (comment_crud_create
                                        \<lparr>comment_task_id = task_id task,
                                         comment_author_id = user_id user,
                                         comment_type = TEXT,
                                         comment_content = Task_created_on (today e)\<rparr>) s1 of
                            (_, s2) \<Rightarrow>
                              (Inr task,
                               if plan_status plan = PLAN_DONE
                               then not_awaited (plan_crud_update pid PLAN_IN_PROGRESS) s2
                               else s2))))))"

text \<open>
  \<^verbatim>\<open>update_task\<close>. \<^verbatim>\<open>tasks_not_done.count(lambda x: ...)\<close> is \<^verbatim>\<open>list.count(value)\<close>: the
  number of elements of the list equal to the function object.
\<close>

definition update_task :: "env \<Rightarrow> PK_TYPE \<Rightarrow> TaskUpdate \<Rightarrow> User \<Rightarrow> db \<Rightarrow> (error + task) \<times> db" where
  "update_task e tid task_patch user s =
     (case check_task_and_user_access e tid (user_id user) s of
        Inl err \<Rightarrow> (Inl err, s)
      | Inr task \<Rightarrow>
          (case check_role user of
             Inl err \<Rightarrow> (Inl err, s)
           | Inr _ \<Rightarrow>
               (case (case patch_expires_at task_patch of
                        None \<Rightarrow> Inr ()
                      | Some d \<Rightarrow> check_new_date_gt_current task d) of
                  Inl err \<Rightarrow> (Inl err, s)
                | Inr _ \<Rightarrow>
                    (case await (task_crud_update tid task_patch) s of
                       (new_task, s1) \<Rightarrow>
                         (let s3 =
                            (if patch_status task_patch = Some TASK_DONE then
                               (case await (task_crud_get_all (task_plan_id task)) s1 of
                                  (tasks_not_done, s2) \<Rightarrow>
                                    if count_list (map Row tasks_not_done) Function \<noteq> 0
                                    then not_awaited
                                           (plan_crud_update (task_plan_id task) PLAN_DONE) s2
                                    else s2)
                             else s1)
                          in (case new_task of
                                [] \<Rightarrow> (Inl IndexError, s3)
                              | t # _ \<Rightarrow> (Inr t, s3)))))))"

definition delete_task :: "env \<Rightarrow> PK_TYPE \<Rightarrow> User \<Rightarrow> db \<Rightarrow> (error + unit) \<times> db" where
  "delete_task e tid user s =
     (case check_task_and_user_access e tid (user_id user) s of
        Inl err \<Rightarrow> (Inl err, s)
      | Inr _ \<Rightarrow>
          (case check_role user of
             Inl err \<Rightarrow> (Inl err, s)
           | Inr _ \<Rightarrow> (case await (task_crud_delete tid) s of (_, s1) \<Rightarrow> (Inr (), s1))))"

section \<open>Example data\<close>

text \<open>
  A supervisor (user 1) and a subordinate (user 2, supervised by user 1), a plan owned by
  the subordinate and tasks under it: the concrete requests the endpoints are run on.
\<close>

definition env0 :: env where
  "env0 = \<lparr>today = 100, supervises = (\<lambda>u v. u = 1 \<and> v = 2)\<rparr>"

definition boss :: User where
  "boss = \<lparr>user_id = 1, user_role = SUPERVISOR, supervisor_id = None\<rparr>"

definition worker :: User where
  "worker = \<lparr>user_id = 2, user_role = SUBORDINATE, supervisor_id = Some 1\<rparr>"

definition plan_p :: "PlanStatus \<Rightarrow> plan" where
  "plan_p st = \<lparr>plan_id = 1, plan_owner = 2, plan_status = st, plan_expires_at = None\<rparr>"

definition task_t :: "PK_TYPE \<Rightarrow> TaskStatus \<Rightarrow> date option \<Rightarrow> task" where
  "task_t i st ex = \<lparr>task_id = i, task_plan_id = 1, task_assignee = 2, task_status = st,
                     task_expires_at = ex\<rparr>"

section \<open>The invariant between a plan and its tasks\<close>

text \<open>
  A plan is not \<^verbatim>\<open>DONE\<close> while one of its tasks is not \<^verbatim>\<open>DONE\<close>; \<open>pk_unique\<close> is the primary
  key constraint of the two tables. A request is one call of an endpoint, \<open>handle\<close> gives
  the database after it and \<open>run\<close> the database after a sequence of requests.
\<close>

definition plan_inv :: "db \<Rightarrow> bool" where
  "plan_inv s = (\<forall>p \<in> set (plans s). plan_status p = PLAN_DONE \<longrightarrow>
                   (\<forall>t \<in> set (tasks s). task_plan_id t = plan_id p \<longrightarrow> task_status t = TASK_DONE))"

definition pk_unique :: "db \<Rightarrow> bool" where
  "pk_unique s = (distinct (map plan_id (plans s)) \<and> distinct (map task_id (tasks s)))"

datatype request =
    Get_task PK_TYPE User
  | Create_task PK_TYPE TaskCreate User
  | Update_task PK_TYPE TaskUpdate User
  | Delete_task PK_TYPE User

fun handle :: "env \<Rightarrow> request \<Rightarrow> db \<Rightarrow> db" where
  "handle e (Get_task tid u) s = snd (get_task e tid u s)"
| "handle e (Create_task pid tc u) s = snd (create_task e pid tc u s)"
| "handle e (Update_task tid tp u) s = snd (update_task e tid tp u s)"
| "handle e (Delete_task tid u) s = snd (delete_task e tid u s)"

fun run :: "env \<Rightarrow> request list \<Rightarrow> db \<Rightarrow> db" where
  "run e [] s = s"
| "run e (r # rs) s = run e rs (handle e r s)"

text \<open>
  A plan is open when it is not \<^verbatim>\<open>DONE\<close>. A request keeps the invariant unless it is an
  update that succeeds in setting a status other than \<^verbatim>\<open>DONE\<close> on a task of a \<^verbatim>\<open>DONE\<close> plan, or
  a create that succeeds under a \<^verbatim>\<open>DONE\<close> plan.
\<close>

definition plan_open :: "db \<Rightarrow> PK_TYPE \<Rightarrow> bool" where
  "plan_open s pid =
     (case plan_crud_get s pid of None \<Rightarrow> True | Some p \<Rightarrow> plan_status p \<noteq> PLAN_DONE)"

fun completing :: "env \<Rightarrow> request \<Rightarrow> db \<Rightarrow> bool" where
  "completing e (Get_task tid u) s = True"
| "completing e (Create_task pid tc u) s =
     (isl (fst (create_task e pid tc u s)) \<or> plan_open s pid)"
| "completing e (Update_task tid tp u) s =
     (isl (fst (update_task e tid tp u s))
      \<or> patch_status tp = None \<or> patch_status tp = Some TASK_DONE
      \<or> (case task_crud_get s tid of None \<Rightarrow> True | Some t \<Rightarrow> plan_open s (task_plan_id t)))"
| "completing e (Delete_task tid u) s = True"

fun all_completing :: "env \<Rightarrow> request list \<Rightarrow> db \<Rightarrow> bool" where
  "all_completing e [] s = True"
| "all_completing e (r # rs) s = (completing e r s \<and> all_completing e rs (handle e r s))"

section \<open>Lookups and updates on the tables\<close>

lemmas ex_defs = env0_def boss_def worker_def plan_p_def task_t_def
  check_task_and_user_access_def check_plan_and_user_access_def check_role_def may_act_def
  task_crud_get_def plan_crud_get_def truthy_def

lemma find_map_upd:
  assumes "\<And>x. key (g x) = key x"
  shows "find (\<lambda>x. key x = k) (map (\<lambda>x. if key x = k then g x else x) xs)
         = map_option g (find (\<lambda>x. key x = k) xs)"
  using assms by (induction xs) auto

lemma filter_map_upd:
  assumes "\<And>x. key (g x) = key x" and "find (\<lambda>x. key x = k) xs = Some y"
  shows "\<exists>rest. filter (\<lambda>x. key x = k) (map (\<lambda>x. if key x = k then g x else x) xs) = g y # rest"
  using assms by (induction xs) (auto split: if_splits)

lemma find_distinct:
  assumes "distinct (map key xs)" and "find (\<lambda>x. key x = k) xs = Some y"
    and "x \<in> set xs" and "key x = k"
  shows "x = y"
  using assms by (induction xs) (auto split: if_splits simp: find_Some_iff image_iff)

lemma task_id_apply_patch: "task_id (apply_patch p t) = task_id t"
  by (simp add: apply_patch_def)

lemma fresh_id_greater: "t \<in> set ts \<Longrightarrow> task_id t < fresh_id ts"
proof -
  assume "t \<in> set ts"
  then have "task_id t \<in> set (0 # map task_id ts)" by simp
  then have "task_id t \<le> Max (set (0 # map task_id ts))" by (intro Max_ge) auto
  then show ?thesis
    using Max.set_eq_fold [of 0 "map task_id ts"] by (simp add: fresh_id_def)
qed

lemma access_task:
  "check_task_and_user_access e tid uid s = Inr t \<Longrightarrow> task_crud_get s tid = Some t"
  by (auto simp: check_task_and_user_access_def split: option.splits if_splits)

lemma access_plan:
  "check_plan_and_user_access e pid uid s = Inr p \<Longrightarrow> plan_crud_get s pid = Some p"
  by (auto simp: check_plan_and_user_access_def split: option.splits if_splits)

lemma task_update_rows:
  assumes "task_crud_get s tid = Some t"
  shows "\<exists>rest. task_crud_update tid p s =
           (apply_patch p t # rest,
            s\<lparr>tasks := map (\<lambda>t. if task_id t = tid then apply_patch p t else t) (tasks s)\<rparr>)"
proof -
  from filter_map_upd [of task_id "apply_patch p" tid "tasks s" t] assms
  obtain rest where "filter (\<lambda>x. task_id x = tid)
      (map (\<lambda>x. if task_id x = tid then apply_patch p x else x) (tasks s)) = apply_patch p t # rest"
    by (auto simp: task_id_apply_patch task_crud_get_def)
  then show ?thesis by (simp add: task_crud_update_def Let_def)
qed

section \<open>What each endpoint returns\<close>

lemma get_task_fires:
  assumes "check_task_and_user_access e tid (user_id user) s = Inr task"
    and "task_status task = TASK_CREATED" and "truthy (supervisor_id user)"
  shows "get_task e tid user s =
    (Inl AttributeError,
     s\<lparr>tasks := map (\<lambda>t. if task_id t = tid then t\<lparr>task_status := TASK_IN_PROGRESS\<rparr> else t) (tasks s)\<rparr>)"
proof -
  let ?p = "\<lparr>patch_status = Some TASK_IN_PROGRESS, patch_expires_at = None\<rparr>"
  have ap: "apply_patch ?p = (\<lambda>t. t\<lparr>task_status := TASK_IN_PROGRESS\<rparr>)"
    by (rule ext) (simp add: apply_patch_def)
  show ?thesis
    using assms
    by (simp add: get_task_def await_def task_crud_update_def getattr_plan_id_def ap Let_def)
qed

lemma get_task_unchanged:
  assumes "check_task_and_user_access e tid (user_id user) s = Inr task"
    and "\<not> (task_status task = TASK_CREATED \<and> truthy (supervisor_id user))"
  shows "get_task e tid user s = (Inr (Row task), s)"
  using assms by (auto simp: get_task_def)

lemma get_task_failed:
  assumes "check_task_and_user_access e tid (user_id user) s = Inl err"
  shows "get_task e tid user s = (Inl err, s)"
  using assms by (simp add: get_task_def)

lemma access_after_first_view:
  assumes "check_task_and_user_access e tid uid s = Inr task"
  shows "check_task_and_user_access e tid uid
           (s\<lparr>tasks := map (\<lambda>t. if task_id t = tid then t\<lparr>task_status := TASK_IN_PROGRESS\<rparr> else t) (tasks s)\<rparr>)
         = Inr (task\<lparr>task_status := TASK_IN_PROGRESS\<rparr>)"
proof -
  have "find (\<lambda>x. task_id x = tid)
          (map (\<lambda>x. if task_id x = tid then x\<lparr>task_status := TASK_IN_PROGRESS\<rparr> else x) (tasks s))
        = Some (task\<lparr>task_status := TASK_IN_PROGRESS\<rparr>)"
    using find_map_upd [of task_id "\<lambda>x. x\<lparr>task_status := TASK_IN_PROGRESS\<rparr>" tid "tasks s"]
      access_task [OF assms] by (simp add: task_crud_get_def)
  then show ?thesis
    using assms
    by (auto simp: check_task_and_user_access_def task_crud_get_def split: option.splits if_splits)
qed

lemma get_task_state:
  "snd (get_task e tid user s) = s
   \<or> (\<exists>task. task_crud_get s tid = Some task \<and> task_status task = TASK_CREATED
        \<and> snd (get_task e tid user s) =
        s\<lparr>tasks := map (\<lambda>t. if task_id t = tid then t\<lparr>task_status := TASK_IN_PROGRESS\<rparr> else t) (tasks s)\<rparr>)"
proof (cases "check_task_and_user_access e tid (user_id user) s")
  case (Inl err)
  then show ?thesis by (simp add: get_task_failed)
next
  case (Inr task)
  show ?thesis
  proof (cases "task_status task = TASK_CREATED \<and> truthy (supervisor_id user)")
    case False
    with Inr show ?thesis by (simp add: get_task_unchanged)
  next
    case True
    then show ?thesis using get_task_fires [OF Inr] access_task [OF Inr] by simp
  qed
qed

lemma create_task_failed:
  "check_plan_and_user_access e pid (user_id user) s = Inl err \<Longrightarrow>
     create_task e pid tc user s = (Inl err, s)"
  "check_plan_and_user_access e pid (user_id user) s = Inr plan \<Longrightarrow> check_role user = Inl err \<Longrightarrow>
     create_task e pid tc user s = (Inl err, s)"
  "check_plan_and_user_access e pid (user_id user) s = Inr plan \<Longrightarrow> check_role user = Inr () \<Longrightarrow>
     create_expires_at tc = Some d \<Longrightarrow> check_plan_tasks_expired_date e s plan d = Inl err \<Longrightarrow>
     create_task e pid tc user s = (Inl err, s)"
  by (simp_all add: create_task_def)

lemma create_task_ok:
  assumes "check_plan_and_user_access e pid (user_id user) s = Inr plan"
    and "check_role user = Inr ()"
    and "(case create_expires_at tc of None \<Rightarrow> Inr ()
          | Some d \<Rightarrow> check_plan_tasks_expired_date e s plan d) = Inr ()"
  shows "create_task e pid tc user s =
     (Inr \<lparr>task_id = fresh_id (tasks s), task_plan_id = pid, task_assignee = create_assignee tc,
           task_status = TASK_CREATED, task_expires_at = create_expires_at tc\<rparr>,
      s\<lparr>tasks := tasks s @ [\<lparr>task_id = fresh_id (tasks s), task_plan_id = pid,
                              task_assignee = create_assignee tc, task_status = TASK_CREATED,
                              task_expires_at = create_expires_at tc\<rparr>],
        comments := comments s @ [\<lparr>comment_task_id = fresh_id (tasks s),
                                    comment_author_id = user_id user, comment_type = TEXT,
                                    comment_content = Task_created_on (today e)\<rparr>]\<rparr>)"
  using assms
  by (simp add: create_task_def await_def task_crud_create_def comment_crud_create_def
      not_awaited_def Let_def)

lemma create_task_state:
  "(isl (fst (create_task e pid tc user s)) \<and> snd (create_task e pid tc user s) = s)
   \<or> (\<not> isl (fst (create_task e pid tc user s))
      \<and> snd (create_task e pid tc user s)
        = s\<lparr>tasks := tasks s @ [\<lparr>task_id = fresh_id (tasks s), task_plan_id = pid,
                              task_assignee = create_assignee tc, task_status = TASK_CREATED,
                              task_expires_at = create_expires_at tc\<rparr>],
            comments := comments s @ [\<lparr>comment_task_id = fresh_id (tasks s),
                                    comment_author_id = user_id user, comment_type = TEXT,
                                    comment_content = Task_created_on (today e)\<rparr>]\<rparr>)"
proof (cases "check_plan_and_user_access e pid (user_id user) s")
  case (Inl err)
  then show ?thesis by (simp add: create_task_failed(1))
next
  case (Inr plan)
  note acc = this
  show ?thesis
  proof (cases "check_role user")
    case (Inl err)
    with acc show ?thesis by (simp add: create_task_failed(2))
  next
    case (Inr u)
    then have role: "check_role user = Inr ()" by simp
    show ?thesis
    proof (cases "case create_expires_at tc of None \<Rightarrow> Inr ()
                  | Some d \<Rightarrow> check_plan_tasks_expired_date e s plan d")
      case (Inl err)
      then obtain d where "create_expires_at tc = Some d"
        and "check_plan_tasks_expired_date e s plan d = Inl err"
        by (cases "create_expires_at tc") auto
      with acc role show ?thesis by (simp add: create_task_failed(3))
    next
      case (Inr u')
      then have "(case create_expires_at tc of None \<Rightarrow> Inr ()
                  | Some d \<Rightarrow> check_plan_tasks_expired_date e s plan d) = Inr ()" by simp
      from create_task_ok [OF acc role this] show ?thesis by (intro disjI2) simp
    qed
  qed
qed

lemma create_task_plans: "plans (snd (create_task e pid tc user s)) = plans s"
  using create_task_state [of e pid tc user s] by (elim disjE conjE) simp_all

lemma update_task_failed:
  "check_task_and_user_access e tid (user_id user) s = Inl err \<Longrightarrow>
     update_task e tid tp user s = (Inl err, s)"
  "check_task_and_user_access e tid (user_id user) s = Inr task \<Longrightarrow> check_role user = Inl err \<Longrightarrow>
     update_task e tid tp user s = (Inl err, s)"
  "check_task_and_user_access e tid (user_id user) s = Inr task \<Longrightarrow> check_role user = Inr () \<Longrightarrow>
     patch_expires_at tp = Some d \<Longrightarrow> check_new_date_gt_current task d = Inl err \<Longrightarrow>
     update_task e tid tp user s = (Inl err, s)"
  by (simp_all add: update_task_def)

lemma update_task_ok:
  assumes "check_task_and_user_access e tid (user_id user) s = Inr task"
    and "check_role user = Inr ()"
    and "(case patch_expires_at tp of None \<Rightarrow> Inr () | Some d \<Rightarrow> check_new_date_gt_current task d)
           = Inr ()"
  shows "update_task e tid tp user s =
     (Inr (apply_patch tp task),
      s\<lparr>tasks := map (\<lambda>t. if task_id t = tid then apply_patch tp t else t) (tasks s)\<rparr>)"
proof -
  from task_update_rows [OF access_task [OF assms(1)], of tp]
  obtain rest where upd: "task_crud_update tid tp s =
           (apply_patch tp task # rest,
            s\<lparr>tasks := map (\<lambda>t. if task_id t = tid then apply_patch tp t else t) (tasks s)\<rparr>)"
    by blast
  show ?thesis
    using assms upd
    by (simp add: update_task_def await_def task_crud_get_all_def not_awaited_def Let_def)
qed

lemma update_task_state:
  "(isl (fst (update_task e tid tp user s)) \<and> snd (update_task e tid tp user s) = s)
   \<or> (\<not> isl (fst (update_task e tid tp user s))
      \<and> snd (update_task e tid tp user s)
        = s\<lparr>tasks := map (\<lambda>t. if task_id t = tid then apply_patch tp t else t) (tasks s)\<rparr>)"
proof (cases "check_task_and_user_access e tid (user_id user) s")
  case (Inl err)
  then show ?thesis by (simp add: update_task_failed(1))
next
  case (Inr task)
  note acc = this
  show ?thesis
  proof (cases "check_role user")
    case (Inl err)
    with acc show ?thesis by (simp add: update_task_failed(2))
  next
    case (Inr u)
    then have role: "check_role user = Inr ()" by simp
    show ?thesis
    proof (cases "case patch_expires_at tp of None \<Rightarrow> Inr ()
                  | Some d \<Rightarrow> check_new_date_gt_current task d")
      case (Inl err)
      then obtain d where "patch_expires_at tp = Some d"
        and "check_new_date_gt_current task d = Inl err"
        by (cases "patch_expires_at tp") auto
      with acc role show ?thesis by (simp add: update_task_failed(3))
    next
      case (Inr u')
      then have "(case patch_expires_at tp of None \<Rightarrow> Inr ()
                  | Some d \<Rightarrow> check_new_date_gt_current task d) = Inr ()" by simp
      from update_task_ok [OF acc role this] show ?thesis by (intro disjI2) simp
    qed
  qed
qed

lemma update_task_plans: "plans (snd (update_task e tid tp user s)) = plans s"
  using update_task_state [of e tid tp user s] by (elim disjE conjE) simp_all

lemma delete_task_failed:
  "check_task_and_user_access e tid (user_id user) s = Inl err \<Longrightarrow>
     delete_task e tid user s = (Inl err, s)"
  "check_task_and_user_access e tid (user_id user) s = Inr task \<Longrightarrow> check_role user = Inl err \<Longrightarrow>
     delete_task e tid user s = (Inl err, s)"
  by (simp_all add: delete_task_def)

lemma delete_task_state:
  "snd (delete_task e tid user s) = s
   \<or> snd (delete_task e tid user s)
        = s\<lparr>tasks := filter (\<lambda>t. task_id t \<noteq> tid) (tasks s),
            comments := filter (\<lambda>c. comment_task_id c \<noteq> tid) (comments s)\<rparr>"
  by (simp add: delete_task_def await_def task_crud_delete_def split: sum.splits)

lemma same_task:
  assumes "pk_unique s" and "task_crud_get s tid = Some task"
    and "t \<in> set (tasks s)" and "task_id t = tid"
  shows "t = task"
  using find_distinct [of task_id "tasks s" tid task t] assms
  by (simp add: pk_unique_def task_crud_get_def)

lemma plan_open_not_done:
  assumes "pk_unique s" and "plan_open s pid" and "p \<in> set (plans s)" and "plan_id p = pid"
  shows "plan_status p \<noteq> PLAN_DONE"
proof -
  from assms(3,4) obtain q where q: "find (\<lambda>p. plan_id p = pid) (plans s) = Some q"
    by (cases "find (\<lambda>p. plan_id p = pid) (plans s)") (auto simp: find_None_iff)
  with find_distinct [of plan_id "plans s" pid q p] assms(1,3,4) have "p = q"
    by (simp add: pk_unique_def)
  with q assms(2) show ?thesis by (simp add: plan_open_def plan_crud_get_def)
qed

section \<open>Reading a task\<close>

text \<open>
  Claim C3. The subordinate (user 2, with a supervisor) reads Task 1, which is \<^verbatim>\<open>CREATED\<close>
  under Plan 1, also \<^verbatim>\<open>CREATED\<close>. The endpoint stores the Task as \<^verbatim>\<open>IN_PROGRESS\<close> and then
  raises \<^verbatim>\<open>AttributeError\<close> on \<^verbatim>\<open>task.plan_id\<close>, since \<^verbatim>\<open>task\<close> is the sequence of rows that
  \<^verbatim>\<open>task_crud.update\<close> returned: the Plan is still \<^verbatim>\<open>CREATED\<close> and no Task is returned.
\<close>

theorem get_task_first_view_raises:
  "get_task env0 1 worker
      \<lparr>plans = [plan_p PLAN_CREATED], tasks = [task_t 1 TASK_CREATED None], comments = []\<rparr>
     = (Inl AttributeError,
        \<lparr>plans = [plan_p PLAN_CREATED], tasks = [task_t 1 TASK_IN_PROGRESS None], comments = []\<rparr>)"
proof -
  let ?s = "\<lparr>plans = [plan_p PLAN_CREATED], tasks = [task_t 1 TASK_CREATED None], comments = []\<rparr>"
  have h1: "check_task_and_user_access env0 1 (user_id worker) ?s = Inr (task_t 1 TASK_CREATED None)"
    by (simp add: ex_defs)
  have h2: "task_status (task_t 1 TASK_CREATED None) = TASK_CREATED"
    by (simp add: task_t_def)
  have h3: "truthy (supervisor_id worker)"
    by (simp add: ex_defs)
  show ?thesis
    unfolding get_task_fires [OF h1 h2 h3] by (simp add: task_t_def)
qed

text \<open>
  Claim C10. The same read when Plan 1 is \<^verbatim>\<open>DONE\<close>: the Task is stored as \<^verbatim>\<open>IN_PROGRESS\<close>, the
  endpoint raises before \<^verbatim>\<open>plan_crud.update\<close> is reached, and the Plan stays \<^verbatim>\<open>DONE\<close>.
\<close>

theorem get_task_done_plan_not_demoted:
  "get_task env0 1 worker
      \<lparr>plans = [plan_p PLAN_DONE], tasks = [task_t 1 TASK_CREATED None], comments = []\<rparr>
     = (Inl AttributeError,
        \<lparr>plans = [plan_p PLAN_DONE], tasks = [task_t 1 TASK_IN_PROGRESS None], comments = []\<rparr>)"
proof -
  let ?s = "\<lparr>plans = [plan_p PLAN_DONE], tasks = [task_t 1 TASK_CREATED None], comments = []\<rparr>"
  have h1: "check_task_and_user_access env0 1 (user_id worker) ?s = Inr (task_t 1 TASK_CREATED None)"
    by (simp add: ex_defs)
  have h2: "task_status (task_t 1 TASK_CREATED None) = TASK_CREATED"
    by (simp add: task_t_def)
  have h3: "truthy (supervisor_id worker)"
    by (simp add: ex_defs)
  show ?thesis
    unfolding get_task_fires [OF h1 h2 h3] by (simp add: task_t_def)
qed

text \<open>
  Claim C5. When the guard does not hold (the user's \<^verbatim>\<open>supervisor_id\<close> is not set, or the
  Task's status is not \<^verbatim>\<open>CREATED\<close>) the request returns the Task and leaves the database as
  it was; and a second read of the same Task by the same user leaves the database as the
  first read left it.
\<close>

theorem get_task_no_effect:
  "(\<forall>task. check_task_and_user_access e tid (user_id user) s = Inr task
        \<and> (\<not> truthy (supervisor_id user) \<or> task_status task \<noteq> TASK_CREATED)
      \<longrightarrow> get_task e tid user s = (Inr (Row task), s))
   \<and> snd (get_task e tid user (snd (get_task e tid user s))) = snd (get_task e tid user s)"
proof (intro conjI allI impI)
  fix task
  assume "check_task_and_user_access e tid (user_id user) s = Inr task
        \<and> (\<not> truthy (supervisor_id user) \<or> task_status task \<noteq> TASK_CREATED)"
  then show "get_task e tid user s = (Inr (Row task), s)"
    using get_task_unchanged by blast
next
  show "snd (get_task e tid user (snd (get_task e tid user s))) = snd (get_task e tid user s)"
  proof (cases "check_task_and_user_access e tid (user_id user) s")
    case (Inl err)
    then show ?thesis by (simp add: get_task_failed)
  next
    case (Inr task)
    show ?thesis
    proof (cases "task_status task = TASK_CREATED \<and> truthy (supervisor_id user)")
      case False
      with Inr show ?thesis by (simp add: get_task_unchanged)
    next
      case True
      then have fired: "get_task e tid user s =
        (Inl AttributeError,
         s\<lparr>tasks := map (\<lambda>t. if task_id t = tid then t\<lparr>task_status := TASK_IN_PROGRESS\<rparr> else t) (tasks s)\<rparr>)"
        using get_task_fires [OF Inr] by simp
      show ?thesis
        unfolding fired
        using get_task_unchanged [where user = user, OF access_after_first_view [OF Inr]]
        by simp
    qed
  qed
qed

theorem get_task_no_effect_witness:
  "get_task env0 1 boss
      \<lparr>plans = [plan_p PLAN_CREATED], tasks = [task_t 1 TASK_CREATED None], comments = []\<rparr>
     = (Inr (Row (task_t 1 TASK_CREATED None)),
        \<lparr>plans = [plan_p PLAN_CREATED], tasks = [task_t 1 TASK_CREATED None], comments = []\<rparr>)
   \<and> get_task env0 1 worker
      \<lparr>plans = [plan_p PLAN_CREATED], tasks = [task_t 1 TASK_IN_PROGRESS None], comments = []\<rparr>
     = (Inr (Row (task_t 1 TASK_IN_PROGRESS None)),
        \<lparr>plans = [plan_p PLAN_CREATED], tasks = [task_t 1 TASK_IN_PROGRESS None], comments = []\<rparr>)"
proof -
  let ?s = "\<lparr>plans = [plan_p PLAN_CREATED], tasks = [task_t 1 TASK_CREATED None], comments = []\<rparr>"
  let ?s' = "\<lparr>plans = [plan_p PLAN_CREATED], tasks = [task_t 1 TASK_IN_PROGRESS None], comments = []\<rparr>"
  have h1: "check_task_and_user_access env0 1 (user_id boss) ?s = Inr (task_t 1 TASK_CREATED None)
            \<and> (\<not> truthy (supervisor_id boss) \<or> task_status (task_t 1 TASK_CREATED None) \<noteq> TASK_CREATED)"
    by (simp add: ex_defs)
  have h2: "check_task_and_user_access env0 1 (user_id worker) ?s' = Inr (task_t 1 TASK_IN_PROGRESS None)
            \<and> (\<not> truthy (supervisor_id worker) \<or> task_status (task_t 1 TASK_IN_PROGRESS None) \<noteq> TASK_CREATED)"
    by (simp add: ex_defs)
  show ?thesis
    using h1 h2 get_task_no_effect [of env0 1 boss ?s] get_task_no_effect [of env0 1 worker ?s']
    by blast
qed

section \<open>Validation comes first\<close>

text \<open>
  Claim C6. In create, update and delete, when the access check, the role check or the
  date check fails, the endpoint returns that validator's error and the database (plans,
  tasks and comments) is the one before the request.
\<close>

theorem validators_fail_fast:
  "(check_plan_and_user_access e pid (user_id user) s = Inl err
      \<longrightarrow> create_task e pid tc user s = (Inl err, s))
   \<and> (check_plan_and_user_access e pid (user_id user) s = Inr plan \<and> check_role user = Inl err
      \<longrightarrow> create_task e pid tc user s = (Inl err, s))
   \<and> (check_plan_and_user_access e pid (user_id user) s = Inr plan \<and> check_role user = Inr ()
        \<and> create_expires_at tc = Some d \<and> check_plan_tasks_expired_date e s plan d = Inl err
      \<longrightarrow> create_task e pid tc user s = (Inl err, s))
   \<and> (check_task_and_user_access e tid (user_id user) s = Inl err
      \<longrightarrow> update_task e tid tp user s = (Inl err, s))
   \<and> (check_task_and_user_access e tid (user_id user) s = Inr task \<and> check_role user = Inl err
      \<longrightarrow> update_task e tid tp user s = (Inl err, s))
   \<and> (check_task_and_user_access e tid (user_id user) s = Inr task \<and> check_role user = Inr ()
        \<and> patch_expires_at tp = Some d' \<and> check_new_date_gt_current task d' = Inl err
      \<longrightarrow> update_task e tid tp user s = (Inl err, s))
   \<and> (check_task_and_user_access e tid (user_id user) s = Inl err
      \<longrightarrow> delete_task e tid user s = (Inl err, s))
   \<and> (check_task_and_user_access e tid (user_id user) s = Inr task \<and> check_role user = Inl err
      \<longrightarrow> delete_task e tid user s = (Inl err, s))"
  by (auto intro: create_task_failed update_task_failed delete_task_failed)

theorem validators_fail_fast_witness:
  "create_task env0 7 \<lparr>create_assignee = 2, create_expires_at = Some 50\<rparr> boss
      \<lparr>plans = [plan_p PLAN_CREATED], tasks = [task_t 1 TASK_CREATED (Some 200)], comments = []\<rparr>
     = (Inl NotFound,
        \<lparr>plans = [plan_p PLAN_CREATED], tasks = [task_t 1 TASK_CREATED (Some 200)], comments = []\<rparr>)
   \<and> create_task env0 1 \<lparr>create_assignee = 2, create_expires_at = Some 50\<rparr> worker
      \<lparr>plans = [plan_p PLAN_CREATED], tasks = [task_t 1 TASK_CREATED (Some 200)], comments = []\<rparr>
     = (Inl Forbidden,
        \<lparr>plans = [plan_p PLAN_CREATED], tasks = [task_t 1 TASK_CREATED (Some 200)], comments = []\<rparr>)
   \<and> create_task env0 1 \<lparr>create_assignee = 2, create_expires_at = Some 50\<rparr> boss
      \<lparr>plans = [plan_p PLAN_CREATED], tasks = [task_t 1 TASK_CREATED (Some 200)], comments = []\<rparr>
     = (Inl InvalidDate,
        \<lparr>plans = [plan_p PLAN_CREATED], tasks = [task_t 1 TASK_CREATED (Some 200)], comments = []\<rparr>)
   \<and> update_task env0 7 \<lparr>patch_status = Some TASK_DONE, patch_expires_at = Some 150\<rparr> boss
      \<lparr>plans = [plan_p PLAN_CREATED], tasks = [task_t 1 TASK_CREATED (Some 200)], comments = []\<rparr>
     = (Inl NotFound,
        \<lparr>plans = [plan_p PLAN_CREATED], tasks = [task_t 1 TASK_CREATED (Some 200)], comments = []\<rparr>)
   \<and> update_task env0 1 \<lparr>patch_status = Some TASK_DONE, patch_expires_at = Some 150\<rparr> worker
      \<lparr>plans = [plan_p PLAN_CREATED], tasks = [task_t 1 TASK_CREATED (Some 200)], comments = []\<rparr>
     = (Inl Forbidden,
        \<lparr>plans = [plan_p PLAN_CREATED], tasks = [task_t 1 TASK_CREATED (Some 200)], comments = []\<rparr>)
   \<and> update_task env0 1 \<lparr>patch_status = Some TASK_DONE, patch_expires_at = Some 150\<rparr> boss
      \<lparr>plans = [plan_p PLAN_CREATED], tasks = [task_t 1 TASK_CREATED (Some 200)], comments = []\<rparr>
     = (Inl InvalidDate,
        \<lparr>plans = [plan_p PLAN_CREATED], tasks = [task_t 1 TASK_CREATED (Some 200)], comments = []\<rparr>)
   \<and> delete_task env0 7 boss
      \<lparr>plans = [plan_p PLAN_CREATED], tasks = [task_t 1 TASK_CREATED (Some 200)], comments = []\<rparr>
     = (Inl NotFound,
        \<lparr>plans = [plan_p PLAN_CREATED], tasks = [task_t 1 TASK_CREATED (Some 200)], comments = []\<rparr>)
   \<and> delete_task env0 1 worker
      \<lparr>plans = [plan_p PLAN_CREATED], tasks = [task_t 1 TASK_CREATED (Some 200)], comments = []\<rparr>
     = (Inl Forbidden,
        \<lparr>plans = [plan_p PLAN_CREATED], tasks = [task_t 1 TASK_CREATED (Some 200)], comments = []\<rparr>)"
proof -
  let ?s = "\<lparr>plans = [plan_p PLAN_CREATED], tasks = [task_t 1 TASK_CREATED (Some 200)], comments = []\<rparr>"
  let ?tc = "\<lparr>create_assignee = 2, create_expires_at = Some 50\<rparr>"
  let ?tp = "\<lparr>patch_status = Some TASK_DONE, patch_expires_at = Some 150\<rparr>"
  let ?P = "plan_p PLAN_CREATED"
  let ?T = "task_t 1 TASK_CREATED (Some 200)"
  have a1: "check_plan_and_user_access env0 7 (user_id boss) ?s = Inl NotFound"
    and a2: "check_task_and_user_access env0 7 (user_id boss) ?s = Inl NotFound"
    by (simp_all add: ex_defs)
  have b1: "check_plan_and_user_access env0 1 (user_id worker) ?s = Inr ?P \<and> check_role worker = Inl Forbidden"
    and b2: "check_task_and_user_access env0 1 (user_id worker) ?s = Inr ?T \<and> check_role worker = Inl Forbidden"
    by (simp_all add: ex_defs)
  have c1: "check_plan_and_user_access env0 1 (user_id boss) ?s = Inr ?P \<and> check_role boss = Inr ()
        \<and> create_expires_at ?tc = Some 50 \<and> check_plan_tasks_expired_date env0 ?s ?P 50 = Inl InvalidDate"
    and c2: "check_task_and_user_access env0 1 (user_id boss) ?s = Inr ?T \<and> check_role boss = Inr ()
        \<and> patch_expires_at ?tp = Some 150 \<and> check_new_date_gt_current ?T 150 = Inl InvalidDate"
    by (simp_all add: ex_defs check_plan_tasks_expired_date_def check_new_date_gt_current_def)
  note n = validators_fail_fast [of env0 7 boss ?s NotFound ?tc ?P 50 7 ?tp ?T 150]
  note f = validators_fail_fast [of env0 1 worker ?s Forbidden ?tc ?P 50 1 ?tp ?T 150]
  note d = validators_fail_fast [of env0 1 boss ?s InvalidDate ?tc ?P 50 1 ?tp ?T 150]
  have "create_task env0 7 ?tc boss ?s = (Inl NotFound, ?s)"
    by (rule n [THEN conjunct1, THEN mp, OF a1])
  moreover have "create_task env0 1 ?tc worker ?s = (Inl Forbidden, ?s)"
    by (rule f [THEN conjunct2, THEN conjunct1, THEN mp, OF b1])
  moreover have "create_task env0 1 ?tc boss ?s = (Inl InvalidDate, ?s)"
    by (rule d [THEN conjunct2, THEN conjunct2, THEN conjunct1, THEN mp, OF c1])
  moreover have "update_task env0 7 ?tp boss ?s = (Inl NotFound, ?s)"
    by (rule n [THEN conjunct2, THEN conjunct2, THEN conjunct2, THEN conjunct1, THEN mp, OF a2])
  moreover have "update_task env0 1 ?tp worker ?s = (Inl Forbidden, ?s)"
    by (rule f [THEN conjunct2, THEN conjunct2, THEN conjunct2, THEN conjunct2, THEN conjunct1,
          THEN mp, OF b2])
  moreover have "update_task env0 1 ?tp boss ?s = (Inl InvalidDate, ?s)"
    by (rule d [THEN conjunct2, THEN conjunct2, THEN conjunct2, THEN conjunct2, THEN conjunct2,
          THEN conjunct1, THEN mp, OF c2])
  moreover have "delete_task env0 7 boss ?s = (Inl NotFound, ?s)"
    by (rule n [THEN conjunct2, THEN conjunct2, THEN conjunct2, THEN conjunct2, THEN conjunct2,
          THEN conjunct2, THEN conjunct1, THEN mp, OF a2])
  moreover have "delete_task env0 1 worker ?s = (Inl Forbidden, ?s)"
    by (rule f [THEN conjunct2, THEN conjunct2, THEN conjunct2, THEN conjunct2, THEN conjunct2,
          THEN conjunct2, THEN conjunct2, THEN mp, OF b2])
  ultimately show ?thesis by (intro conjI)
qed

text \<open>
  Claim C7. A Create Task request that passes the access and role checks and gives an
  expiry fails with \<^verbatim>\<open>InvalidDate\<close> when the expiry is not strictly after the current date,
  or when the Plan has an expiry and the given one exceeds it. With no expiry the date
  check is not run: the request never fails with \<^verbatim>\<open>InvalidDate\<close>, and it succeeds as soon as
  the access and role checks pass, whatever the current date and the Plan's expiry are.
\<close>

theorem create_task_expiry:
  "(check_plan_and_user_access e pid (user_id user) s = Inr plan \<and> check_role user = Inr ()
      \<and> create_expires_at tc = Some d
      \<and> (d \<le> today e \<or> (\<exists>pe. plan_expires_at plan = Some pe \<and> pe < d))
    \<longrightarrow> create_task e pid tc user s = (Inl InvalidDate, s))
   \<and> (create_expires_at tc = None \<longrightarrow> fst (create_task e pid tc user s) \<noteq> Inl InvalidDate)
   \<and> (create_expires_at tc = None
      \<and> check_plan_and_user_access e pid (user_id user) s = Inr plan \<and> check_role user = Inr ()
    \<longrightarrow> (\<exists>t. fst (create_task e pid tc user s) = Inr t))"
proof (intro conjI impI)
  assume a: "check_plan_and_user_access e pid (user_id user) s = Inr plan \<and> check_role user = Inr ()
      \<and> create_expires_at tc = Some d
      \<and> (d \<le> today e \<or> (\<exists>pe. plan_expires_at plan = Some pe \<and> pe < d))"
  then have "check_plan_tasks_expired_date e s plan d = Inl InvalidDate"
    by (auto simp: check_plan_tasks_expired_date_def)
  with a show "create_task e pid tc user s = (Inl InvalidDate, s)"
    by (simp add: create_task_failed(3))
next
  assume "create_expires_at tc = None"
  then show "fst (create_task e pid tc user s) \<noteq> Inl InvalidDate"
    by (auto simp: create_task_def check_plan_and_user_access_def check_role_def await_def
        task_crud_create_def comment_crud_create_def Let_def split: sum.splits option.splits if_splits)
next
  assume "create_expires_at tc = None
      \<and> check_plan_and_user_access e pid (user_id user) s = Inr plan \<and> check_role user = Inr ()"
  then show "\<exists>t. fst (create_task e pid tc user s) = Inr t"
    by (simp add: create_task_def await_def task_crud_create_def comment_crud_create_def Let_def)
qed

theorem create_task_expiry_witness:
  "create_task env0 1 \<lparr>create_assignee = 2, create_expires_at = Some 100\<rparr> boss
      \<lparr>plans = [plan_p PLAN_CREATED], tasks = [], comments = []\<rparr>
     = (Inl InvalidDate, \<lparr>plans = [plan_p PLAN_CREATED], tasks = [], comments = []\<rparr>)
   \<and> create_task env0 1 \<lparr>create_assignee = 2, create_expires_at = Some 400\<rparr> boss
      \<lparr>plans = [(plan_p PLAN_CREATED)\<lparr>plan_expires_at := Some 300\<rparr>], tasks = [], comments = []\<rparr>
     = (Inl InvalidDate,
        \<lparr>plans = [(plan_p PLAN_CREATED)\<lparr>plan_expires_at := Some 300\<rparr>], tasks = [], comments = []\<rparr>)
   \<and> (\<exists>t. fst (create_task env0 1 \<lparr>create_assignee = 2, create_expires_at = None\<rparr> boss
      \<lparr>plans = [plan_p PLAN_CREATED], tasks = [], comments = []\<rparr>) = Inr t)"
proof -
  let ?s = "\<lparr>plans = [plan_p PLAN_CREATED], tasks = [], comments = []\<rparr>"
  let ?s' = "\<lparr>plans = [(plan_p PLAN_CREATED)\<lparr>plan_expires_at := Some 300\<rparr>], tasks = [], comments = []\<rparr>"
  let ?a = "\<lparr>create_assignee = 2, create_expires_at = Some 100\<rparr>"
  let ?b = "\<lparr>create_assignee = 2, create_expires_at = Some 400\<rparr>"
  let ?c = "\<lparr>create_assignee = 2, create_expires_at = None\<rparr>"
  have h1: "check_plan_and_user_access env0 1 (user_id boss) ?s = Inr (plan_p PLAN_CREATED)
      \<and> check_role boss = Inr () \<and> create_expires_at ?a = Some 100
      \<and> (100 \<le> today env0 \<or> (\<exists>pe. plan_expires_at (plan_p PLAN_CREATED) = Some pe \<and> pe < 100))"
    by (simp add: ex_defs)
  have h2: "check_plan_and_user_access env0 1 (user_id boss) ?s'
        = Inr ((plan_p PLAN_CREATED)\<lparr>plan_expires_at := Some 300\<rparr>)
      \<and> check_role boss = Inr () \<and> create_expires_at ?b = Some 400
      \<and> (400 \<le> today env0
          \<or> (\<exists>pe. plan_expires_at ((plan_p PLAN_CREATED)\<lparr>plan_expires_at := Some 300\<rparr>) = Some pe \<and> pe < 400))"
    by (simp add: ex_defs)
  have h3: "create_expires_at ?c = None
      \<and> check_plan_and_user_access env0 1 (user_id boss) ?s = Inr (plan_p PLAN_CREATED)
      \<and> check_role boss = Inr ()"
    by (simp add: ex_defs)
  show ?thesis
    using h1 h2 h3
      create_task_expiry [of env0 1 boss ?s "plan_p PLAN_CREATED" ?a 100]
      create_task_expiry [of env0 1 boss ?s' "(plan_p PLAN_CREATED)\<lparr>plan_expires_at := Some 300\<rparr>" ?b 400]
      create_task_expiry [of env0 1 boss ?s "plan_p PLAN_CREATED" ?c]
    by blast
qed

text \<open>
  Claim C8. An Update Task request that passes the access and role checks and gives a new
  expiry, for a Task that has an expiry: it fails with \<^verbatim>\<open>InvalidDate\<close> when the new expiry
  is not strictly after the Task's current one, and when it is strictly later the request
  succeeds and the Task returned and stored has the new expiry.
\<close>

theorem update_task_expiry:
  assumes "check_task_and_user_access e tid (user_id user) s = Inr task"
    and "check_role user = Inr ()"
    and "task_expires_at task = Some cur"
    and "patch_expires_at tp = Some d"
  shows "(d \<le> cur \<longrightarrow> update_task e tid tp user s = (Inl InvalidDate, s))
       \<and> (cur < d \<longrightarrow> (\<exists>t s'. update_task e tid tp user s = (Inr t, s')
                           \<and> task_expires_at t = Some d \<and> task_crud_get s' tid = Some t))"
proof (intro conjI impI)
  assume "d \<le> cur"
  then have "check_new_date_gt_current task d = Inl InvalidDate"
    using assms(3) by (simp add: check_new_date_gt_current_def)
  then show "update_task e tid tp user s = (Inl InvalidDate, s)"
    using assms by (simp add: update_task_failed(3))
next
  assume "cur < d"
  then have ok: "(case patch_expires_at tp of None \<Rightarrow> Inr ()
                   | Some d \<Rightarrow> check_new_date_gt_current task d) = Inr ()"
    using assms(3,4) by (simp add: check_new_date_gt_current_def)
  have found: "find (\<lambda>x. task_id x = tid)
          (map (\<lambda>x. if task_id x = tid then apply_patch tp x else x) (tasks s))
        = Some (apply_patch tp task)"
    using find_map_upd [of task_id "apply_patch tp" tid "tasks s"] access_task [OF assms(1)]
    by (simp add: task_crud_get_def task_id_apply_patch)
  note update_task_ok [OF assms(1,2) ok]
  moreover have "task_expires_at (apply_patch tp task) = Some d"
    using assms(4) by (simp add: apply_patch_def)
  ultimately show "\<exists>t s'. update_task e tid tp user s = (Inr t, s')
                           \<and> task_expires_at t = Some d \<and> task_crud_get s' tid = Some t"
    using found by (simp add: task_crud_get_def)
qed

theorem update_task_expiry_witness:
  "update_task env0 1 \<lparr>patch_status = None, patch_expires_at = Some 150\<rparr> boss
      \<lparr>plans = [plan_p PLAN_CREATED], tasks = [task_t 1 TASK_CREATED (Some 200)], comments = []\<rparr>
     = (Inl InvalidDate,
        \<lparr>plans = [plan_p PLAN_CREATED], tasks = [task_t 1 TASK_CREATED (Some 200)], comments = []\<rparr>)
   \<and> (\<exists>t s'. update_task env0 1 \<lparr>patch_status = None, patch_expires_at = Some 300\<rparr> boss
      \<lparr>plans = [plan_p PLAN_CREATED], tasks = [task_t 1 TASK_CREATED (Some 200)], comments = []\<rparr>
         = (Inr t, s') \<and> task_expires_at t = Some 300 \<and> task_crud_get s' 1 = Some t)"
proof -
  let ?s = "\<lparr>plans = [plan_p PLAN_CREATED], tasks = [task_t 1 TASK_CREATED (Some 200)], comments = []\<rparr>"
  have h1: "check_task_and_user_access env0 1 (user_id boss) ?s = Inr (task_t 1 TASK_CREATED (Some 200))"
    by (simp add: ex_defs)
  have h2: "check_role boss = Inr ()"
    by (simp add: ex_defs)
  have h3: "task_expires_at (task_t 1 TASK_CREATED (Some 200)) = Some 200"
    by (simp add: task_t_def)
  have h4: "patch_expires_at \<lparr>patch_status = None, patch_expires_at = Some 150\<rparr> = Some 150"
    and h5: "patch_expires_at \<lparr>patch_status = None, patch_expires_at = Some 300\<rparr> = Some 300"
    by simp_all
  show ?thesis
    using update_task_expiry [OF h1 h2 h3 h4] update_task_expiry [OF h1 h2 h3 h5] by simp
qed

section \<open>Deleting a task\<close>

text \<open>
  Claim C9. A Delete Task request that passes validation deletes the Task (the store
  removes the rows with its id, and the Comments of that Task with it) and nothing else:
  the plans table, so every Plan's status, is as before. In the witness a \<^verbatim>\<open>DONE\<close> Task is
  deleted under a Plan \<^verbatim>\<open>IN_PROGRESS\<close> whose other Task is \<^verbatim>\<open>DONE\<close>, and the Plan stays
  \<^verbatim>\<open>IN_PROGRESS\<close>.
\<close>

theorem delete_task_no_cascade:
  assumes "check_task_and_user_access e tid (user_id user) s = Inr task"
    and "check_role user = Inr ()"
  shows "delete_task e tid user s
           = (Inr (), s\<lparr>tasks := filter (\<lambda>t. task_id t \<noteq> tid) (tasks s),
                        comments := filter (\<lambda>c. comment_task_id c \<noteq> tid) (comments s)\<rparr>)
       \<and> plans (snd (delete_task e tid user s)) = plans s"
  using assms by (simp add: delete_task_def await_def task_crud_delete_def)

theorem delete_task_no_cascade_witness:
  "delete_task env0 3 boss
      \<lparr>plans = [plan_p PLAN_IN_PROGRESS],
       tasks = [task_t 2 TASK_DONE None, task_t 3 TASK_DONE None],
       comments = [\<lparr>comment_task_id = 2, comment_author_id = 1, comment_type = TEXT,
                    comment_content = Task_created_on 90\<rparr>,
                   \<lparr>comment_task_id = 3, comment_author_id = 1, comment_type = TEXT,
                    comment_content = Task_created_on 95\<rparr>]\<rparr>
     = (Inr (),
        \<lparr>plans = [plan_p PLAN_IN_PROGRESS], tasks = [task_t 2 TASK_DONE None],
         comments = [\<lparr>comment_task_id = 2, comment_author_id = 1, comment_type = TEXT,
                      comment_content = Task_created_on 90\<rparr>]\<rparr>)"
proof -
  let ?s = "\<lparr>plans = [plan_p PLAN_IN_PROGRESS],
       tasks = [task_t 2 TASK_DONE None, task_t 3 TASK_DONE None],
       comments = [\<lparr>comment_task_id = 2, comment_author_id = 1, comment_type = TEXT,
                    comment_content = Task_created_on 90\<rparr>,
                   \<lparr>comment_task_id = 3, comment_author_id = 1, comment_type = TEXT,
                    comment_content = Task_created_on 95\<rparr>]\<rparr>"
  have h1: "check_task_and_user_access env0 3 (user_id boss) ?s = Inr (task_t 3 TASK_DONE None)"
    by (simp add: ex_defs)
  have h2: "check_role boss = Inr ()"
    by (simp add: ex_defs)
  show ?thesis
    using delete_task_no_cascade [OF h1 h2] by (simp add: task_t_def)
qed

section \<open>The cascades of update and create\<close>

text \<open>
  Claim C1. Plan 1 is \<^verbatim>\<open>IN_PROGRESS\<close> with Task 1 \<^verbatim>\<open>DONE\<close> and Task 2 \<^verbatim>\<open>IN_PROGRESS\<close>; the
  supervisor updates Task 2 to \<^verbatim>\<open>DONE\<close>. The endpoint stores the Task's new status, and
  the Plan's status stays \<^verbatim>\<open>IN_PROGRESS\<close> although every Task of the Plan is now \<^verbatim>\<open>DONE\<close>:
  \<^verbatim>\<open>tasks_not_done.count(lambda ...)\<close> counts the rows equal to the function object, which
  is 0, so the branch that updates the Plan is not taken (and the call in it is not
  awaited).
\<close>

theorem update_task_last_done_plan_unchanged:
  "update_task env0 2 \<lparr>patch_status = Some TASK_DONE, patch_expires_at = None\<rparr> boss
      \<lparr>plans = [plan_p PLAN_IN_PROGRESS],
       tasks = [task_t 1 TASK_DONE None, task_t 2 TASK_IN_PROGRESS None], comments = []\<rparr>
     = (Inr (task_t 2 TASK_DONE None),
        \<lparr>plans = [plan_p PLAN_IN_PROGRESS],
         tasks = [task_t 1 TASK_DONE None, task_t 2 TASK_DONE None], comments = []\<rparr>)"
proof -
  let ?s = "\<lparr>plans = [plan_p PLAN_IN_PROGRESS],
       tasks = [task_t 1 TASK_DONE None, task_t 2 TASK_IN_PROGRESS None], comments = []\<rparr>"
  let ?p = "\<lparr>patch_status = Some TASK_DONE, patch_expires_at = None\<rparr>"
  have h1: "check_task_and_user_access env0 2 (user_id boss) ?s = Inr (task_t 2 TASK_IN_PROGRESS None)"
    by (simp add: ex_defs)
  have h2: "check_role boss = Inr ()"
    by (simp add: ex_defs)
  have h3: "(case patch_expires_at ?p of None \<Rightarrow> Inr ()
             | Some d \<Rightarrow> check_new_date_gt_current (task_t 2 TASK_IN_PROGRESS None) d) = Inr ()"
    by simp
  show ?thesis
    unfolding update_task_ok [OF h1 h2 h3] by (simp add: task_t_def apply_patch_def)
qed

text \<open>
  Claim C2. Plan 1 is \<^verbatim>\<open>DONE\<close> and the supervisor creates a Task under it. The new Task
  starts \<^verbatim>\<open>CREATED\<close>, the audit comment is written, and the Plan's status stays \<^verbatim>\<open>DONE\<close>:
  the coroutine \<^verbatim>\<open>plan_crud.update(...)\<close> is built and never awaited.
\<close>

theorem create_task_done_plan_unchanged:
  "create_task env0 1 \<lparr>create_assignee = 2, create_expires_at = None\<rparr> boss
      \<lparr>plans = [plan_p PLAN_DONE], tasks = [], comments = []\<rparr>
     = (Inr (task_t 1 TASK_CREATED None),
        \<lparr>plans = [plan_p PLAN_DONE], tasks = [task_t 1 TASK_CREATED None],
         comments = [\<lparr>comment_task_id = 1, comment_author_id = 1, comment_type = TEXT,
                      comment_content = Task_created_on 100\<rparr>]\<rparr>)"
proof -
  let ?s = "\<lparr>plans = [plan_p PLAN_DONE], tasks = [], comments = []\<rparr>"
  let ?c = "\<lparr>create_assignee = 2, create_expires_at = None\<rparr>"
  have h1: "check_plan_and_user_access env0 1 (user_id boss) ?s = Inr (plan_p PLAN_DONE)"
    by (simp add: ex_defs)
  have h2: "check_role boss = Inr ()"
    by (simp add: ex_defs)
  have h3: "(case create_expires_at ?c of None \<Rightarrow> Inr ()
             | Some d \<Rightarrow> check_plan_tasks_expired_date env0 ?s (plan_p PLAN_DONE) d) = Inr ()"
    by simp
  show ?thesis
    unfolding create_task_ok [OF h1 h2 h3]
    by (simp add: task_t_def fresh_id_def env0_def boss_def)
qed

section \<open>The invariant over sequences of requests\<close>

lemma inv_get_task:
  assumes "plan_inv s" and "pk_unique s"
  shows "plan_inv (snd (get_task e tid user s)) \<and> pk_unique (snd (get_task e tid user s))"
proof -
  let ?f = "\<lambda>t. if task_id t = tid then t\<lparr>task_status := TASK_IN_PROGRESS\<rparr> else t"
  let ?s' = "s\<lparr>tasks := map ?f (tasks s)\<rparr>"
  from get_task_state [of e tid user s] show ?thesis
  proof
    assume "snd (get_task e tid user s) = s"
    with assms show ?thesis by simp
  next
    assume "\<exists>task. task_crud_get s tid = Some task \<and> task_status task = TASK_CREATED
        \<and> snd (get_task e tid user s) = ?s'"
    then obtain task where found: "task_crud_get s tid = Some task"
      and created: "task_status task = TASK_CREATED"
      and st: "snd (get_task e tid user s) = ?s'"
      by blast
    have ids: "map task_id (map ?f (tasks s)) = map task_id (tasks s)"
      by (simp add: comp_def if_distrib cong: if_cong)
    have pk: "pk_unique ?s'"
      using assms(2) unfolding pk_unique_def by (simp add: ids del: map_map)
    have inv: "plan_inv ?s'"
      unfolding plan_inv_def
    proof (intro ballI impI)
      fix p t'
      assume p: "p \<in> set (plans ?s')" and pd: "plan_status p = PLAN_DONE"
        and t': "t' \<in> set (tasks ?s')" and under: "task_plan_id t' = plan_id p"
      from p have p_in: "p \<in> set (plans s)" by simp
      from t' obtain t where t: "t \<in> set (tasks s)" and eq: "t' = ?f t" by auto
      from under eq have "task_plan_id t = plan_id p" by (simp split: if_splits)
      with assms(1) p_in pd t have t_done: "task_status t = TASK_DONE" by (simp add: plan_inv_def)
      have "task_id t \<noteq> tid"
      proof
        assume "task_id t = tid"
        with same_task [OF assms(2) found t] have "t = task" by simp
        with created t_done show False by simp
      qed
      with eq t_done show "task_status t' = TASK_DONE" by simp
    qed
    from pk inv st show ?thesis by simp
  qed
qed

lemma inv_update_task:
  assumes "plan_inv s" and "pk_unique s" and "completing e (Update_task tid tp user) s"
  shows "plan_inv (snd (update_task e tid tp user s)) \<and> pk_unique (snd (update_task e tid tp user s))"
proof -
  let ?f = "\<lambda>t. if task_id t = tid then apply_patch tp t else t"
  let ?s' = "s\<lparr>tasks := map ?f (tasks s)\<rparr>"
  from update_task_state [of e tid tp user s] show ?thesis
  proof (elim disjE conjE)
    assume "snd (update_task e tid tp user s) = s"
    with assms show ?thesis by simp
  next
    assume ok: "\<not> isl (fst (update_task e tid tp user s))"
      and st: "snd (update_task e tid tp user s) = ?s'"
    from assms(3) ok have cond:
      "patch_status tp = None \<or> patch_status tp = Some TASK_DONE
       \<or> (case task_crud_get s tid of None \<Rightarrow> True | Some t \<Rightarrow> plan_open s (task_plan_id t))"
      by simp
    have ids: "map task_id (map ?f (tasks s)) = map task_id (tasks s)"
      by (simp add: comp_def if_distrib task_id_apply_patch cong: if_cong)
    have plan_same: "task_plan_id (?f t) = task_plan_id t" for t
      by (simp add: apply_patch_def)
    have pk: "pk_unique ?s'"
      using assms(2) unfolding pk_unique_def by (simp add: ids del: map_map)
    have inv: "plan_inv ?s'"
      unfolding plan_inv_def
    proof (intro ballI impI)
      fix p t'
      assume p: "p \<in> set (plans ?s')" and pd: "plan_status p = PLAN_DONE"
        and t': "t' \<in> set (tasks ?s')" and under: "task_plan_id t' = plan_id p"
      from p have p_in: "p \<in> set (plans s)" by simp
      from t' obtain t where t: "t \<in> set (tasks s)" and eq: "t' = ?f t" by auto
      from under eq plan_same [of t] have t_under: "task_plan_id t = plan_id p" by simp
      with assms(1) p_in pd t have t_done: "task_status t = TASK_DONE" by (simp add: plan_inv_def)
      show "task_status t' = TASK_DONE"
      proof (cases "task_id t = tid")
        case False
        with eq t_done show ?thesis by simp
      next
        case True
        from t True obtain task where found: "task_crud_get s tid = Some task"
          by (cases "task_crud_get s tid") (auto simp: task_crud_get_def find_None_iff)
        with same_task [OF assms(2) found t True] have t_is: "task_crud_get s tid = Some t" by simp
        from cond show ?thesis
        proof (elim disjE)
          assume "patch_status tp = None"
          with eq True t_done show ?thesis by (simp add: apply_patch_def)
        next
          assume "patch_status tp = Some TASK_DONE"
          with eq True show ?thesis by (simp add: apply_patch_def)
        next
          assume "case task_crud_get s tid of None \<Rightarrow> True | Some t \<Rightarrow> plan_open s (task_plan_id t)"
          with t_is have "plan_open s (task_plan_id t)" by simp
          from plan_open_not_done [OF assms(2) this p_in] t_under pd show ?thesis by simp
        qed
      qed
    qed
    from pk inv st show ?thesis by simp
  qed
qed

lemma inv_delete_task:
  assumes "plan_inv s" and "pk_unique s"
  shows "plan_inv (snd (delete_task e tid user s)) \<and> pk_unique (snd (delete_task e tid user s))"
proof -
  let ?s' = "s\<lparr>tasks := filter (\<lambda>t. task_id t \<noteq> tid) (tasks s),
               comments := filter (\<lambda>c. comment_task_id c \<noteq> tid) (comments s)\<rparr>"
  have pk: "pk_unique ?s'"
    using assms(2) unfolding pk_unique_def by (simp add: distinct_map_filter)
  have inv: "plan_inv ?s'"
    using assms(1) unfolding plan_inv_def by simp
  from delete_task_state [of e tid user s] show ?thesis
  proof
    assume "snd (delete_task e tid user s) = s"
    with assms show ?thesis by simp
  next
    assume "snd (delete_task e tid user s) = ?s'"
    with pk inv show ?thesis by simp
  qed
qed

lemma inv_create_task:
  assumes "plan_inv s" and "pk_unique s" and "completing e (Create_task pid tc user) s"
  shows "plan_inv (snd (create_task e pid tc user s)) \<and> pk_unique (snd (create_task e pid tc user s))"
proof -
  let ?t = "\<lparr>task_id = fresh_id (tasks s), task_plan_id = pid,
             task_assignee = create_assignee tc, task_status = TASK_CREATED,
             task_expires_at = create_expires_at tc\<rparr>"
  let ?c = "\<lparr>comment_task_id = fresh_id (tasks s), comment_author_id = user_id user,
             comment_type = TEXT, comment_content = Task_created_on (today e)\<rparr>"
  let ?s' = "s\<lparr>tasks := tasks s @ [?t], comments := comments s @ [?c]\<rparr>"
  from create_task_state [of e pid tc user s] show ?thesis
  proof (elim disjE conjE)
    assume "snd (create_task e pid tc user s) = s"
    with assms show ?thesis by simp
  next
    assume ok: "\<not> isl (fst (create_task e pid tc user s))"
      and st: "snd (create_task e pid tc user s) = ?s'"
    from assms(3) ok have open_plan: "plan_open s pid" by simp
    have "fresh_id (tasks s) \<notin> task_id ` set (tasks s)"
      using fresh_id_greater [of _ "tasks s"] by fastforce
    then have pk: "pk_unique ?s'"
      using assms(2) unfolding pk_unique_def by simp
    have inv: "plan_inv ?s'"
      unfolding plan_inv_def
    proof (intro ballI impI)
      fix p t
      assume p: "p \<in> set (plans ?s')" and pd: "plan_status p = PLAN_DONE"
        and t: "t \<in> set (tasks ?s')" and under: "task_plan_id t = plan_id p"
      from p have p_in: "p \<in> set (plans s)" by simp
      from t have "t \<in> set (tasks s) \<or> t = ?t" by auto
      then show "task_status t = TASK_DONE"
      proof
        assume "t \<in> set (tasks s)"
        with assms(1) p_in pd under show ?thesis by (simp add: plan_inv_def)
      next
        assume "t = ?t"
        with under have "plan_id p = pid" by simp
        with plan_open_not_done [OF assms(2) open_plan p_in] pd show ?thesis by simp
      qed
    qed
    from pk inv st show ?thesis by simp
  qed
qed

lemma inv_handle:
  assumes "plan_inv s" and "pk_unique s" and "completing e r s"
  shows "plan_inv (handle e r s) \<and> pk_unique (handle e r s)"
proof (cases r)
  case (Get_task tid u)
  with assms show ?thesis by (simp add: inv_get_task)
next
  case (Create_task pid tc u)
  with assms inv_create_task [of s e pid tc u] show ?thesis by simp
next
  case (Update_task tid tp u)
  with assms inv_update_task [of s e tid tp u] show ?thesis by simp
next
  case (Delete_task tid u)
  with assms show ?thesis by (simp add: inv_delete_task)
qed

text \<open>
  Claim C4, as amended. From a database that satisfies the invariant and the primary key
  constraint, the invariant holds after every sequence of requests in which no update
  succeeds in setting a status other than \<^verbatim>\<open>DONE\<close> on a Task of a \<^verbatim>\<open>DONE\<close> Plan and no create
  succeeds under a \<^verbatim>\<open>DONE\<close> Plan. The witness starts with Plan 1 \<^verbatim>\<open>DONE\<close> (its Task 2 \<^verbatim>\<open>DONE\<close>)
  and Plan 2 \<^verbatim>\<open>IN_PROGRESS\<close> (its Task 3 \<^verbatim>\<open>CREATED\<close>): Task 3 is read by the subordinate, then
  set back to \<^verbatim>\<open>CREATED\<close>, Task 2 is updated to \<^verbatim>\<open>DONE\<close>, a Task is created under Plan 2 and
  Task 3 is deleted, and Plan 1 is still \<^verbatim>\<open>DONE\<close> with its Task \<^verbatim>\<open>DONE\<close>.
\<close>

theorem plan_done_invariant:
  assumes "plan_inv s" and "pk_unique s" and "all_completing e rs s"
  shows "plan_inv (run e rs s)"
  using assms
proof (induction rs arbitrary: s)
  case Nil
  then show ?case by simp
next
  case (Cons r rs)
  from Cons.prems have "plan_inv (handle e r s) \<and> pk_unique (handle e r s)"
    by (simp add: inv_handle)
  with Cons.prems Cons.IH [of "handle e r s"] show ?case by simp
qed

theorem plan_done_invariant_witness:
  "plan_inv \<lparr>plans = [plan_p PLAN_DONE, (plan_p PLAN_IN_PROGRESS)\<lparr>plan_id := 2\<rparr>],
             tasks = [task_t 2 TASK_DONE None, (task_t 3 TASK_CREATED None)\<lparr>task_plan_id := 2\<rparr>],
             comments = []\<rparr>
   \<and> pk_unique \<lparr>plans = [plan_p PLAN_DONE, (plan_p PLAN_IN_PROGRESS)\<lparr>plan_id := 2\<rparr>],
             tasks = [task_t 2 TASK_DONE None, (task_t 3 TASK_CREATED None)\<lparr>task_plan_id := 2\<rparr>],
             comments = []\<rparr>
   \<and> all_completing env0
        [Get_task 3 worker,
         Update_task 3 \<lparr>patch_status = Some TASK_CREATED, patch_expires_at = None\<rparr> boss,
         Update_task 2 \<lparr>patch_status = Some TASK_DONE, patch_expires_at = None\<rparr> boss,
         Create_task 2 \<lparr>create_assignee = 2, create_expires_at = None\<rparr> boss,
         Delete_task 3 boss]
        \<lparr>plans = [plan_p PLAN_DONE, (plan_p PLAN_IN_PROGRESS)\<lparr>plan_id := 2\<rparr>],
             tasks = [task_t 2 TASK_DONE None, (task_t 3 TASK_CREATED None)\<lparr>task_plan_id := 2\<rparr>],
             comments = []\<rparr>
   \<and> plan_inv (run env0
        [Get_task 3 worker,
         Update_task 3 \<lparr>patch_status = Some TASK_CREATED, patch_expires_at = None\<rparr> boss,
         Update_task 2 \<lparr>patch_status = Some TASK_DONE, patch_expires_at = None\<rparr> boss,
         Create_task 2 \<lparr>create_assignee = 2, create_expires_at = None\<rparr> boss,
         Delete_task 3 boss]
        \<lparr>plans = [plan_p PLAN_DONE, (plan_p PLAN_IN_PROGRESS)\<lparr>plan_id := 2\<rparr>],
             tasks = [task_t 2 TASK_DONE None, (task_t 3 TASK_CREATED None)\<lparr>task_plan_id := 2\<rparr>],
             comments = []\<rparr>)
   \<and> plans (run env0
        [Get_task 3 worker,
         Update_task 3 \<lparr>patch_status = Some TASK_CREATED, patch_expires_at = None\<rparr> boss,
         Update_task 2 \<lparr>patch_status = Some TASK_DONE, patch_expires_at = None\<rparr> boss,
         Create_task 2 \<lparr>create_assignee = 2, create_expires_at = None\<rparr> boss,
         Delete_task 3 boss]
        \<lparr>plans = [plan_p PLAN_DONE, (plan_p PLAN_IN_PROGRESS)\<lparr>plan_id := 2\<rparr>],
             tasks = [task_t 2 TASK_DONE None, (task_t 3 TASK_CREATED None)\<lparr>task_plan_id := 2\<rparr>],
             comments = []\<rparr>)
       = [plan_p PLAN_DONE, (plan_p PLAN_IN_PROGRESS)\<lparr>plan_id := 2\<rparr>]"
proof -
  let ?s = "\<lparr>plans = [plan_p PLAN_DONE, (plan_p PLAN_IN_PROGRESS)\<lparr>plan_id := 2\<rparr>],
             tasks = [task_t 2 TASK_DONE None, (task_t 3 TASK_CREATED None)\<lparr>task_plan_id := 2\<rparr>],
             comments = []\<rparr>"
  let ?rs = "[Get_task 3 worker,
         Update_task 3 \<lparr>patch_status = Some TASK_CREATED, patch_expires_at = None\<rparr> boss,
         Update_task 2 \<lparr>patch_status = Some TASK_DONE, patch_expires_at = None\<rparr> boss,
         Create_task 2 \<lparr>create_assignee = 2, create_expires_at = None\<rparr> boss,
         Delete_task 3 boss]"
  note defs = ex_defs plan_inv_def pk_unique_def plan_open_def get_task_def update_task_def
    create_task_def delete_task_def await_def not_awaited_def task_crud_update_def
    task_crud_get_all_def task_crud_create_def task_crud_delete_def comment_crud_create_def
    getattr_plan_id_def apply_patch_def check_new_date_gt_current_def fresh_id_def Let_def
  have h1: "plan_inv ?s" and h2: "pk_unique ?s"
    by (simp_all add: plan_inv_def pk_unique_def plan_p_def task_t_def)
  have h3: "all_completing env0 ?rs ?s"
    by (simp add: defs)
  have h4: "plans (run env0 ?rs ?s) = [plan_p PLAN_DONE, (plan_p PLAN_IN_PROGRESS)\<lparr>plan_id := 2\<rparr>]"
    by (simp add: defs)
  show ?thesis
    using h1 h2 h3 h4 plan_done_invariant [OF h1 h2 h3] by (intro conjI)
qed

text \<open>
  Claim C4 as stated fails: an update may set any status, and no endpoint demotes the Plan
  on an update. Plan 1 is \<^verbatim>\<open>DONE\<close> with its one Task \<^verbatim>\<open>DONE\<close>; the supervisor updates the
  Task to \<^verbatim>\<open>IN_PROGRESS\<close>, and the Plan is still \<^verbatim>\<open>DONE\<close>.
\<close>

theorem plan_done_invariant_counterexample:
  "plan_inv \<lparr>plans = [plan_p PLAN_DONE], tasks = [task_t 1 TASK_DONE None], comments = []\<rparr>
   \<and> pk_unique \<lparr>plans = [plan_p PLAN_DONE], tasks = [task_t 1 TASK_DONE None], comments = []\<rparr>
   \<and> \<not> plan_inv (run env0
          [Update_task 1 \<lparr>patch_status = Some TASK_IN_PROGRESS, patch_expires_at = None\<rparr> boss]
          \<lparr>plans = [plan_p PLAN_DONE], tasks = [task_t 1 TASK_DONE None], comments = []\<rparr>)"
proof -
  let ?s = "\<lparr>plans = [plan_p PLAN_DONE], tasks = [task_t 1 TASK_DONE None], comments = []\<rparr>"
  let ?p = "\<lparr>patch_status = Some TASK_IN_PROGRESS, patch_expires_at = None\<rparr>"
  have h1: "check_task_and_user_access env0 1 (user_id boss) ?s = Inr (task_t 1 TASK_DONE None)"
    by (simp add: ex_defs)
  have h2: "check_role boss = Inr ()"
    by (simp add: ex_defs)
  have h3: "(case patch_expires_at ?p of None \<Rightarrow> Inr ()
             | Some d \<Rightarrow> check_new_date_gt_current (task_t 1 TASK_DONE None) d) = Inr ()"
    by simp
  have "plan_inv ?s" and "pk_unique ?s"
    by (simp_all add: plan_inv_def pk_unique_def plan_p_def task_t_def)
  moreover have "run env0 [Update_task 1 ?p boss] ?s
      = ?s\<lparr>tasks := map (\<lambda>t. if task_id t = 1 then apply_patch ?p t else t) (tasks ?s)\<rparr>"
    unfolding run.simps handle.simps update_task_ok [OF h1 h2 h3] by (rule snd_conv)
  then have "\<not> plan_inv (run env0 [Update_task 1 ?p boss] ?s)"
    by (simp add: plan_inv_def plan_p_def task_t_def apply_patch_def)
  ultimately show ?thesis by (intro conjI)
qed

end
